theory Spec2Isabelle
  imports Main "HOL-Library.Word" "HOL-Library.Signed_Division"
begin

unbundle bit_operations_syntax

section \<open>Machine types\<close>

text \<open>
  \<^verbatim>\<open>platform/web/web.c\<close> is the Emscripten platform layer of PicoDrive. On that target
  \<^verbatim>\<open>int\<close>, \<^verbatim>\<open>long\<close>, \<^verbatim>\<open>size_t\<close> and pointers are all 32 bits wide,
  \<^verbatim>\<open>short\<close> is 16 bits and \<^verbatim>\<open>char\<close> is 8 bits. Every integer of the file is a word of
  its width: \<open>+\<close>, \<open>-\<close> and \<open>*\<close> wrap around, \<open>\<le>\<close> and \<open><\<close> compare unsigned (as C does for
  \<^verbatim>\<open>size_t\<close>), and the signed comparisons of \<^verbatim>\<open>int\<close> are written with \<open>sint\<close>.
\<close>

type_synonym byte = "8 word"
type_synonym c_short = "16 word"
type_synonym c_int = "32 word"
type_synonym c_long = "32 word"
type_synonym size_t = "32 word"

text \<open>The three \<^verbatim>\<open>whence\<close> constants of \<^verbatim>\<open><stdio.h>\<close>.\<close>

definition SEEK_SET :: c_int where "SEEK_SET = 0"
definition SEEK_CUR :: c_int where "SEEK_CUR = 1"
definition SEEK_END :: c_int where "SEEK_END = 2"

section \<open>Memory\<close>

text \<open>
  A buffer is the list of the bytes of the object a pointer points at; the null pointer is
  \<open>None\<close>. \<^verbatim>\<open>memcpy(dst + doff, src + soff, n)\<close> returns the new contents of the
  destination. A copy that would leave either object is undefined behaviour in C: the model
  makes it the value \<open>Inl OutOfBounds\<close> (\<open>Inl NullPointer\<close> through a null pointer), so that
  an overrun is seen and not hidden. A copy of no bytes changes nothing.
\<close>

datatype fault = NullPointer | OutOfBounds

definition memcpy :: "byte list option \<Rightarrow> nat \<Rightarrow> byte list option \<Rightarrow> nat \<Rightarrow> nat
    \<Rightarrow> fault + byte list option" where
  "memcpy dst doff src soff n =
     (if n = 0 then Inr dst
      else case (dst, src) of
        (Some d, Some s) \<Rightarrow>
          if doff + n \<le> length d \<and> soff + n \<le> length s
          then Inr (Some (take doff d @ take n (drop soff s) @ drop (doff + n) d))
          else Inl OutOfBounds
      | _ \<Rightarrow> Inl NullPointer)"

section \<open>The state stream: \<^verbatim>\<open>struct state_context\<close> and its callbacks\<close>

text \<open>
  \<^verbatim>\<open>struct state_context { const unsigned char *load_buf; unsigned char *save_buf;
  size_t size; size_t pos; }\<close>. The field \<^verbatim>\<open>size\<close> is named \<open>size_ctx\<close> here, since
  \<open>size\<close> is a constant of HOL. The two pointer fields hold the contents of the buffers they
  point at.
\<close>

record state_context =
  load_buf :: "byte list option"
  save_buf :: "byte list option"
  size_ctx :: size_t
  pos :: size_t

text \<open>
  \<^verbatim>\<open>state_read_cb(p, size, nmemb, file)\<close>. The argument \<open>p\<close> is the caller's destination
  buffer; the result is its new contents, the returned count and the context.
\<close>

definition state_read_cb :: "byte list \<Rightarrow> size_t \<Rightarrow> size_t \<Rightarrow> state_context
    \<Rightarrow> fault + (byte list \<times> size_t \<times> state_context)" where
  "state_read_cb p sz nmemb ctx =
     (let bsize0 = sz * nmemb;
          clipped = (pos ctx + bsize0 > size_ctx ctx);
          bsize = (if clipped then size_ctx ctx - pos ctx else bsize0)
      in if clipped \<and> sint bsize \<le> 0 then Inr (p, 0, ctx)
         else case memcpy (Some p) 0 (load_buf ctx) (unat (pos ctx)) (unat bsize) of
                Inl f \<Rightarrow> Inl f
              | Inr None \<Rightarrow> Inl NullPointer
              | Inr (Some p') \<Rightarrow> Inr (p', bsize, ctx\<lparr>pos := pos ctx + bsize\<rparr>))"

text \<open>
  \<^verbatim>\<open>state_write_cb(p, size, nmemb, file)\<close>. The argument \<open>p\<close> is the caller's source
  buffer; the result is the returned count and the context, whose \<open>save_buf\<close> holds the
  bytes copied.
\<close>

definition state_write_cb :: "byte list \<Rightarrow> size_t \<Rightarrow> size_t \<Rightarrow> state_context
    \<Rightarrow> fault + (size_t \<times> state_context)" where
  "state_write_cb p sz nmemb ctx =
     (let bsize0 = sz * nmemb;
          clipped = (pos ctx + bsize0 > size_ctx ctx);
          bsize = (if clipped then size_ctx ctx - pos ctx else bsize0)
      in if clipped \<and> sint bsize \<le> 0 then Inr (0, ctx)
         else case memcpy (save_buf ctx) (unat (pos ctx)) (Some p) 0 (unat bsize) of
                Inl f \<Rightarrow> Inl f
              | Inr b \<Rightarrow> Inr (bsize, ctx\<lparr>save_buf := b, pos := pos ctx + bsize\<rparr>))"

text \<open>\<^verbatim>\<open>state_skip_cb\<close>: the cursor moves by \<^verbatim>\<open>size * nmemb\<close>, with no bound check.\<close>

definition state_skip_cb :: "size_t \<Rightarrow> size_t \<Rightarrow> state_context \<Rightarrow> size_t \<times> state_context" where
  "state_skip_cb sz nmemb ctx =
     (let bsize = sz * nmemb in (bsize, ctx\<lparr>pos := pos ctx + bsize\<rparr>))"

text \<open>\<^verbatim>\<open>state_eof_cb\<close> returns the truth value of \<^verbatim>\<open>ctx->pos >= ctx->size\<close> as a \<^verbatim>\<open>size_t\<close>.\<close>

definition state_eof_cb :: "state_context \<Rightarrow> size_t" where
  "state_eof_cb ctx = (if pos ctx \<ge> size_ctx ctx then 1 else 0)"

text \<open>
  \<^verbatim>\<open>state_seek_cb(file, offset, whence)\<close>: the \<^verbatim>\<open>switch\<close> has the three cases and no
  default, so any other \<^verbatim>\<open>whence\<close> leaves the cursor alone. The \<^verbatim>\<open>long\<close> offset is
  converted to \<^verbatim>\<open>size_t\<close> (the same 32 bits), and the result is \<^verbatim>\<open>(int)ctx->pos\<close>.
\<close>

definition state_seek_cb :: "state_context \<Rightarrow> c_long \<Rightarrow> c_int \<Rightarrow> c_int \<times> state_context" where
  "state_seek_cb ctx offset whence =
     (let ctx' = (if whence = SEEK_SET then ctx\<lparr>pos := offset\<rparr>
                  else if whence = SEEK_CUR then ctx\<lparr>pos := pos ctx + offset\<rparr>
                  else if whence = SEEK_END then ctx\<lparr>pos := size_ctx ctx + offset\<rparr>
                  else ctx)
      in (pos ctx', ctx'))"

text \<open>
  A sequence of stream operations, as the core's serializer issues them through the
  callbacks. A faulting operation ends the run.
\<close>

datatype stream_op =
    Read "byte list" size_t size_t
  | Write "byte list" size_t size_t
  | Skip size_t size_t
  | Seek c_long c_int

fun stream_step :: "stream_op \<Rightarrow> state_context \<Rightarrow> fault + state_context" where
  "stream_step (Read p sz nmemb) ctx =
     (case state_read_cb p sz nmemb ctx of Inl f \<Rightarrow> Inl f | Inr (p', r, ctx') \<Rightarrow> Inr ctx')"
| "stream_step (Write p sz nmemb) ctx =
     (case state_write_cb p sz nmemb ctx of Inl f \<Rightarrow> Inl f | Inr (r, ctx') \<Rightarrow> Inr ctx')"
| "stream_step (Skip sz nmemb) ctx = Inr (snd (state_skip_cb sz nmemb ctx))"
| "stream_step (Seek offset whence) ctx = Inr (snd (state_seek_cb ctx offset whence))"

fun run_ops :: "stream_op list \<Rightarrow> state_context \<Rightarrow> fault + state_context" where
  "run_ops [] ctx = Inr ctx"
| "run_ops (op # ops) ctx =
     (case stream_step op ctx of Inl f \<Rightarrow> Inl f | Inr ctx' \<Rightarrow> run_ops ops ctx')"

section \<open>The globals of \<^verbatim>\<open>web.c\<close>\<close>

definition VOUT_MAX_WIDTH :: c_int where "VOUT_MAX_WIDTH = 320"
definition VOUT_MAX_HEIGHT :: c_int where "VOUT_MAX_HEIGHT = 240"
definition SND_RATE :: c_int where "SND_RATE = 44100"
definition SND_MAX_SAMPLES :: c_int where "SND_MAX_SAMPLES = 1764"
definition STATE_MAX_SIZE :: size_t where "STATE_MAX_SIZE = 2 * 1024 * 1024"

text \<open>
  The core (\<^verbatim>\<open>PicoDrawSetOutBuf\<close>, \<^verbatim>\<open>Pico.m.dirtyPal\<close>, \<^verbatim>\<open>PicoStateFP\<close>) and the host
  (the JavaScript handlers reached through \<^verbatim>\<open>EM_ASM\<close>) are outside the file. What the file
  does to them is recorded in program order in the field \<open>effects\<close>.
\<close>

datatype effect =
    CallPicoDrawSetOutBuf c_int
  | HostVideoModeChange c_int c_int
  | StoreDirtyPal byte
  | HostAudioWrite "c_short list"
  | CallPicoStateFP c_int

text \<open>
  The static variables of the file that the functions below use, the two handlers the host may
  have registered (\<^verbatim>\<open>window.onVideoModeChange\<close>, \<^verbatim>\<open>window.onAudioWrite\<close>) and the record
  of effects. \<open>state_buffer\<close> holds the contents of the allocated block, \<open>None\<close> while the
  pointer is null.
\<close>

record web_state =
  vout_buf :: "c_short list"
  vout_width :: c_int
  vout_height :: c_int
  vout_offset :: c_int
  vm_current_start_line :: c_int
  vm_current_line_count :: c_int
  vm_current_start_col :: c_int
  vm_current_col_count :: c_int
  snd_buffer :: "c_short list"
  input_state :: "c_short list"
  game_loaded :: c_int
  state_buffer :: "byte list option"
  state_size :: size_t
  onVideoModeChange :: bool
  onAudioWrite :: bool
  effects :: "effect list"

text \<open>The static initialisers, with no handler registered and nothing done yet.\<close>

definition initial_state :: web_state where
  "initial_state =
     \<lparr>vout_buf = replicate (unat (VOUT_MAX_WIDTH * VOUT_MAX_HEIGHT)) 0,
      vout_width = VOUT_MAX_WIDTH,
      vout_height = VOUT_MAX_HEIGHT,
      vout_offset = 0,
      vm_current_start_line = - 1,
      vm_current_line_count = - 1,
      vm_current_start_col = - 1,
      vm_current_col_count = - 1,
      snd_buffer = replicate (unat (SND_MAX_SAMPLES * 2)) 0,
      input_state = [0, 0],
      game_loaded = 0,
      state_buffer = None,
      state_size = 0,
      onVideoModeChange = False,
      onAudioWrite = False,
      effects = []\<rparr>"

section \<open>Video\<close>

text \<open>
  \<^verbatim>\<open>emu_video_mode_change\<close>, statement by statement. The products are those of C's
  \<^verbatim>\<open>int\<close>, which wrap on this target. The host is notified inside
  \<^verbatim>\<open>#ifdef __EMSCRIPTEN__\<close>, when \<^verbatim>\<open>window.onVideoModeChange\<close> is a function.
\<close>

definition emu_video_mode_change :: "c_int \<Rightarrow> c_int \<Rightarrow> c_int \<Rightarrow> c_int \<Rightarrow> web_state \<Rightarrow> web_state" where
  "emu_video_mode_change start_line line_count start_col col_count s =
     (let s1 = s\<lparr>vm_current_start_line := start_line,
                  vm_current_line_count := line_count,
                  vm_current_start_col := start_col,
                  vm_current_col_count := col_count\<rparr>;
          s2 = s1\<lparr>vout_width := col_count, vout_height := line_count\<rparr>;
          s3 = s2\<lparr>vout_buf := replicate (unat (VOUT_MAX_WIDTH * VOUT_MAX_HEIGHT)) 0\<rparr>;
          s4 = s3\<lparr>effects := effects s3 @ [CallPicoDrawSetOutBuf (vout_width s3 * 2)]\<rparr>;
          s5 = s4\<lparr>vout_offset := vout_width s4 * start_line * 2\<rparr>;
          s6 = (if sint (vout_height s5) > sint VOUT_MAX_HEIGHT
                then s5\<lparr>vout_height := VOUT_MAX_HEIGHT\<rparr> else s5);
          s7 = (if sint (vout_offset s6) > sint (vout_width s6 * (VOUT_MAX_HEIGHT - 1) * 2)
                then s6\<lparr>vout_offset := vout_width s6 * (VOUT_MAX_HEIGHT - 1) * 2\<rparr> else s6);
          s8 = (if onVideoModeChange s7
                then s7\<lparr>effects := effects s7 @ [HostVideoModeChange (vout_width s7) (vout_height s7)]\<rparr>
                else s7)
      in s8\<lparr>effects := effects s8 @ [StoreDirtyPal 1]\<rparr>)"

text \<open>
  \<^verbatim>\<open>pico_get_video_buffer\<close> returns \<^verbatim>\<open>(char *)vout_buf + vout_offset\<close>. The first argument
  is the address of \<^verbatim>\<open>vout_buf\<close>, which the linker chooses.
\<close>

definition pico_get_video_buffer :: "size_t \<Rightarrow> web_state \<Rightarrow> size_t" where
  "pico_get_video_buffer vout_buf_addr s = vout_buf_addr + vout_offset s"

definition pico_get_video_width :: "web_state \<Rightarrow> c_int" where
  "pico_get_video_width s = vout_width s"

definition pico_get_video_height :: "web_state \<Rightarrow> c_int" where
  "pico_get_video_height s = vout_height s"

text \<open>
  The effects a call added to the record, and whether the first \<open>a\<close> in a list of effects is
  followed by a \<open>b\<close>.
\<close>

definition new_effects :: "web_state \<Rightarrow> web_state \<Rightarrow> effect list" where
  "new_effects s s' = drop (length (effects s)) (effects s')"

fun occurs_before :: "effect \<Rightarrow> effect \<Rightarrow> effect list \<Rightarrow> bool" where
  "occurs_before a b [] = False"
| "occurs_before a b (x # xs) = (if x = a then b \<in> set xs else occurs_before a b xs)"

section \<open>Audio\<close>

text \<open>
  \<^verbatim>\<open>snd_write(len)\<close>. The division is C's, which truncates towards zero. The body is
  JavaScript: \<^verbatim>\<open>HEAP16\<close> is the 16-bit view of the heap and \<^verbatim>\<open>ptr\<close> the value of
  \<^verbatim>\<open>PicoIn.sndOut\<close>, both taken as arguments; \<^verbatim>\<open>ptr >> 1\<close> is JavaScript's signed shift;
  an index outside the view reads \<^verbatim>\<open>undefined\<close>, which an \<^verbatim>\<open>Int16Array\<close> stores as 0;
  \<^verbatim>\<open>new Int16Array(n)\<close> throws a \<^verbatim>\<open>RangeError\<close> when \<open>n\<close> is negative.
\<close>

datatype js_error = RangeError

definition heap16_read :: "c_short list \<Rightarrow> int \<Rightarrow> c_short" where
  "heap16_read HEAP16 j = (if 0 \<le> j \<and> j < int (length HEAP16) then HEAP16 ! nat j else 0)"

definition snd_write :: "c_short list \<Rightarrow> c_int \<Rightarrow> c_int \<Rightarrow> web_state \<Rightarrow> js_error + web_state" where
  "snd_write HEAP16 ptr len s =
     (let samples = (word_of_int (sint len sdiv 4) :: c_int) in
      if onAudioWrite s then
        (if sint samples * 2 < 0 then Inl RangeError
         else let audioData = map (\<lambda>i. heap16_read HEAP16 (sint (signed_drop_bit 1 ptr) + int i))
                                  [0 ..< nat (sint samples * 2)]
              in Inr (s\<lparr>effects := effects s @ [HostAudioWrite audioData]\<rparr>))
      else Inr s)"

section \<open>Input\<close>

definition pico_set_input :: "c_int \<Rightarrow> c_short \<Rightarrow> web_state \<Rightarrow> web_state" where
  "pico_set_input pad buttons s =
     (if sint pad \<ge> 0 \<and> sint pad < 2
      then s\<lparr>input_state := (input_state s)[nat (sint pad) := buttons]\<rparr>
      else s)"

section \<open>Save states\<close>

text \<open>
  \<^verbatim>\<open>PicoStateFP\<close> is the core's serializer, of \<^verbatim>\<open>pico/state.c\<close>: a parameter here. It is given
  the context, which it reaches through the callbacks above, and \<^verbatim>\<open>is_save\<close>; it returns its
  status and the context as it left it. \<^verbatim>\<open>malloc\<close> is a parameter too: the contents of the
  block it returns, or \<open>None\<close> for a null pointer. Since \<^verbatim>\<open>ctx.save_buf\<close> points at the
  block of \<^verbatim>\<open>state_buffer\<close>, what the serializer wrote is in \<open>state_buffer\<close> afterwards,
  whatever its status.
\<close>

type_synonym serializer = "state_context \<Rightarrow> c_int \<Rightarrow> c_int \<times> state_context"
type_synonym allocator = "nat \<Rightarrow> byte list option"

definition pico_state_save :: "allocator \<Rightarrow> serializer \<Rightarrow> web_state \<Rightarrow> c_int \<times> web_state" where
  "pico_state_save malloc PicoStateFP s =
     (if game_loaded s = 0 then (0, s)
      else
        let s1 = (if state_buffer s = None
                  then s\<lparr>state_buffer := malloc (unat STATE_MAX_SIZE)\<rparr> else s)
        in if state_buffer s1 = None then (0, s1)
           else
             let ctx = \<lparr>load_buf = None, save_buf = state_buffer s1,
                        size_ctx = STATE_MAX_SIZE, pos = 0\<rparr>;
                 (ret, ctx') = PicoStateFP ctx 1;
                 s2 = s1\<lparr>state_buffer := save_buf ctx',
                          effects := effects s1 @ [CallPicoStateFP 1]\<rparr>
             in if ret \<noteq> 0 then (0, s2)
                else (1, s2\<lparr>state_size := pos ctx'\<rparr>))"

definition pico_get_state_size :: "web_state \<Rightarrow> c_int" where
  "pico_get_state_size s = state_size s"

text \<open>\<^verbatim>\<open>pico_get_state_buffer\<close> returns the pointer \<^verbatim>\<open>state_buffer\<close>: what the host reads there.\<close>

definition pico_get_state_buffer :: "web_state \<Rightarrow> byte list option" where
  "pico_get_state_buffer s = state_buffer s"

definition pico_get_state_load_buffer :: "allocator \<Rightarrow> c_int \<Rightarrow> web_state
    \<Rightarrow> byte list option \<times> web_state" where
  "pico_get_state_load_buffer malloc sz s =
     (let s1 = (if state_buffer s = None
                then s\<lparr>state_buffer := malloc (unat STATE_MAX_SIZE)\<rparr> else s)
      in if state_buffer s1 = None then (None, s1)
         else (state_buffer s1, s1\<lparr>state_size := sz\<rparr>))"

definition pico_state_load :: "serializer \<Rightarrow> web_state \<Rightarrow> c_int \<times> web_state" where
  "pico_state_load PicoStateFP s =
     (if game_loaded s = 0 then (0, s)
      else if state_buffer s = None \<or> state_size s = 0 then (0, s)
      else
        let ctx = \<lparr>load_buf = state_buffer s, save_buf = None,
                   size_ctx = state_size s, pos = 0\<rparr>;
            (ret, ctx') = PicoStateFP ctx 0;
            s1 = s\<lparr>effects := effects s @ [CallPicoStateFP 0]\<rparr>
        in if ret \<noteq> 0 then (0, s1) else (1, s1))"

definition pico_state_exists :: "web_state \<Rightarrow> c_int" where
  "pico_state_exists s = (if state_buffer s \<noteq> None \<and> state_size s > 0 then 1 else 0)"

section \<open>Predicates and examples for the statements below\<close>

text \<open>The stream invariant of the specification: the cursor is within the capacity.\<close>

definition cursor_in_bounds :: "state_context \<Rightarrow> bool" where
  "cursor_in_bounds ctx = (pos ctx \<le> size_ctx ctx)"

text \<open>The operations that transfer bytes.\<close>

fun is_transfer :: "stream_op \<Rightarrow> bool" where
  "is_transfer (Read p sz nmemb) = True"
| "is_transfer (Write p sz nmemb) = True"
| "is_transfer (Skip sz nmemb) = False"
| "is_transfer (Seek offset whence) = False"

text \<open>
  A transfer is well formed for a stream when the stream's buffer holds its capacity, the
  caller's buffer holds the bytes asked for, and both objects lie in the 32-bit address space.
\<close>

fun fits_memory :: "state_context \<Rightarrow> stream_op \<Rightarrow> bool" where
  "fits_memory ctx (Read p sz nmemb) =
     (case load_buf ctx of
        None \<Rightarrow> False
      | Some lb \<Rightarrow> unat (size_ctx ctx) \<le> length lb \<and> unat (sz * nmemb) \<le> length p \<and>
                   length p + length lb < 2 ^ 32)"
| "fits_memory ctx (Write p sz nmemb) =
     (case save_buf ctx of
        None \<Rightarrow> False
      | Some sb \<Rightarrow> unat (size_ctx ctx) \<le> length sb \<and> unat (sz * nmemb) \<le> length p \<and>
                   length p + length sb < 2 ^ 32)"
| "fits_memory ctx (Skip sz nmemb) = True"
| "fits_memory ctx (Seek offset whence) = True"

text \<open>A stream of capacity 16 over zeroed buffers, with the cursor at the start.\<close>

definition stream16 :: state_context where
  "stream16 = \<lparr>load_buf = Some (replicate 16 0), save_buf = Some (replicate 16 0),
               size_ctx = 16, pos = 0\<rparr>"

text \<open>A session with a game loaded and the state buffer allocated and zeroed.\<close>

definition loaded_state :: web_state where
  "loaded_state = initial_state\<lparr>game_loaded := 1,
                                state_buffer := Some (replicate (unat STATE_MAX_SIZE) 0)\<rparr>"

text \<open>
  A session in which an earlier save has left a blob of five bytes: every byte of the state
  buffer is 7 and \<open>state_size\<close> is 5.
\<close>

definition saved_state :: web_state where
  "saved_state = initial_state\<lparr>game_loaded := 1,
                               state_buffer := Some (replicate (unat STATE_MAX_SIZE) 7),
                               state_size := 5\<rparr>"

text \<open>
  Two serializers for examples: one writes three bytes through \<open>state_write_cb\<close> and reports
  success, the other writes the same bytes and reports the status 5.
\<close>

definition serializer_ok :: serializer where
  "serializer_ok ctx is_save =
     (case state_write_cb [1, 2, 3] 1 3 ctx of Inl f \<Rightarrow> (- 1, ctx) | Inr (r, ctx') \<Rightarrow> (0, ctx'))"

definition serializer_failing :: serializer where
  "serializer_failing ctx is_save =
     (case state_write_cb [1, 2, 3] 1 3 ctx of Inl f \<Rightarrow> (- 1, ctx) | Inr (r, ctx') \<Rightarrow> (5, ctx'))"

definition zeroed_malloc :: allocator where
  "zeroed_malloc n = Some (replicate n 0)"

section \<open>Word arithmetic and memory copies\<close>

lemma unat_add_nowrap:
  fixes a b :: size_t
  assumes "unat a + unat b < 2 ^ 32"
  shows "unat (a + b) = unat a + unat b"
proof -
  have "unat a + unat b < 2 ^ LENGTH(32)" using assms by simp
  then show ?thesis by (rule unat_add_lem [THEN iffD1])
qed

lemma sint_of_small:
  fixes w :: size_t
  assumes "unat w < 2 ^ 31"
  shows "sint w = int (unat w)"
proof -
  have "int (unat w) < int (2 ^ 31)" using assms by (simp only: of_nat_less_iff)
  then have hi: "uint w < 2 ^ 31" by (simp only: of_nat_power of_nat_numeral flip: uint_nat)
  have "(0::int) \<le> uint w" by simp
  then have lo: "- (2 ^ 31) \<le> uint w" by (rule order_trans [rotated]) simp
  have "signed_take_bit 31 (uint w) = uint w"
    using lo hi by (rule signed_take_bit_int_eq_self)
  then have "sint w = uint w" by (simp add: sint_uint)
  then show ?thesis by (simp only: uint_nat)
qed

lemma memcpy_in_bounds:
  assumes "doff + n \<le> length d" "soff + n \<le> length s"
  shows "memcpy (Some d) doff (Some s) soff n =
           Inr (Some (take doff d @ take n (drop soff s) @ drop (doff + n) d))"
  using assms by (simp add: memcpy_def)

lemma memcpy_length:
  assumes "memcpy dst doff src soff n = Inr b"
  shows "map_option length b = map_option length dst"
  using assms by (auto simp: memcpy_def split: if_splits option.splits)

section \<open>The stream callbacks on well-formed transfers\<close>

lemma state_write_cb_fits:
  assumes inv: "pos ctx \<le> size_ctx ctx"
    and buf: "save_buf ctx = Some sb"
    and cap: "unat (size_ctx ctx) \<le> length sb"
    and src: "unat (sz * nmemb) \<le> length p"
    and mem: "length p + length sb < 2 ^ 32"
    and m: "m = min (unat (sz * nmemb)) (unat (size_ctx ctx) - unat (pos ctx))"
  shows "state_write_cb p sz nmemb ctx =
           Inr (word_of_nat m,
                ctx\<lparr>save_buf := Some (take (unat (pos ctx)) sb @ take m p @ drop (unat (pos ctx) + m) sb),
                    pos := pos ctx + word_of_nat m\<rparr>)"
proof -
  define n where "n = unat (sz * nmemb)"
  define P where "P = unat (pos ctx)"
  define S where "S = unat (size_ctx ctx)"
  have PS: "P \<le> S" using inv by (simp add: P_def S_def word_le_nat_alt)
  have capS: "S \<le> length sb" using cap by (simp add: S_def)
  have srcn: "n \<le> length p" using src by (simp add: n_def)
  have nowrap: "P + n < 2 ^ 32" using PS capS srcn mem by linarith
  have sum: "unat (pos ctx + sz * nmemb) = P + n"
    using nowrap unat_add_nowrap [of "pos ctx" "sz * nmemb"] by (simp only: P_def n_def)
  have clip_iff: "(size_ctx ctx < pos ctx + sz * nmemb) \<longleftrightarrow> S - P < n"
    using PS by (auto simp add: word_less_nat_alt sum S_def [symmetric])
  have diff: "unat (size_ctx ctx - pos ctx) = S - P"
    using inv by (simp add: unat_sub S_def P_def)
  have same: "ctx\<lparr>save_buf := Some sb, pos := pos ctx\<rparr> = ctx"
    by (simp add: buf [symmetric])
  show ?thesis
  proof (cases "S - P < n")
    case True
    then have mk: "m = S - P" by (simp add: m n_def S_def P_def)
    have "S - P + (S - P) < 2 ^ 32" using True srcn capS mem by linarith
    then have ksmall: "S - P < 2 ^ 31" by simp
    have sint_k: "sint (size_ctx ctx - pos ctx) = int (S - P)"
      using sint_of_small [of "size_ctx ctx - pos ctx"] ksmall by (simp only: diff)
    have wk: "word_of_nat (S - P) = size_ctx ctx - pos ctx"
      by (simp add: diff [symmetric])
    show ?thesis
    proof (cases "S - P = 0")
      case z: True
      then have "size_ctx ctx - pos ctx = 0" using wk by simp
      then show ?thesis
        using True z clip_iff mk same
        by (simp add: state_write_cb_def Let_def P_def [symmetric])
    next
      case nz: False
      have cp: "memcpy (Some sb) P (Some p) 0 (S - P) =
                  Inr (Some (take P sb @ take (S - P) (drop 0 p) @ drop (P + (S - P)) sb))"
        using PS capS True srcn by (intro memcpy_in_bounds) simp_all
      have pos_k: "0 < int (S - P)" using nz by simp
      show ?thesis
        using True clip_iff pos_k cp
        by (simp add: state_write_cb_def Let_def buf P_def [symmetric] sint_k diff mk wk)
    qed
  next
    case False
    then have mn: "m = n" by (simp add: m n_def S_def P_def)
    have wn: "word_of_nat n = sz * nmemb" by (simp add: n_def)
    show ?thesis
    proof (cases "n = 0")
      case True
      then have z: "sz * nmemb = 0" using wn by simp
      show ?thesis
        using False True clip_iff mn z same
        by (simp add: state_write_cb_def Let_def memcpy_def buf P_def [symmetric])
    next
      case nz: False
      have cp: "memcpy (Some sb) P (Some p) 0 n =
                  Inr (Some (take P sb @ take n (drop 0 p) @ drop (P + n) sb))"
        using PS capS False srcn by (intro memcpy_in_bounds) simp_all
      show ?thesis
        using False clip_iff cp
        by (simp add: state_write_cb_def Let_def buf P_def [symmetric] n_def [symmetric] mn wn)
    qed
  qed
qed

lemma state_read_cb_fits:
  assumes inv: "pos ctx \<le> size_ctx ctx"
    and buf: "load_buf ctx = Some lb"
    and cap: "unat (size_ctx ctx) \<le> length lb"
    and dst: "unat (sz * nmemb) \<le> length p"
    and mem: "length p + length lb < 2 ^ 32"
    and m: "m = min (unat (sz * nmemb)) (unat (size_ctx ctx) - unat (pos ctx))"
  shows "state_read_cb p sz nmemb ctx =
           Inr (take m (drop (unat (pos ctx)) lb) @ drop m p, word_of_nat m,
                ctx\<lparr>pos := pos ctx + word_of_nat m\<rparr>)"
proof -
  define n where "n = unat (sz * nmemb)"
  define P where "P = unat (pos ctx)"
  define S where "S = unat (size_ctx ctx)"
  have PS: "P \<le> S" using inv by (simp add: P_def S_def word_le_nat_alt)
  have capS: "S \<le> length lb" using cap by (simp add: S_def)
  have dstn: "n \<le> length p" using dst by (simp add: n_def)
  have nowrap: "P + n < 2 ^ 32" using PS capS dstn mem by linarith
  have sum: "unat (pos ctx + sz * nmemb) = P + n"
    using nowrap unat_add_nowrap [of "pos ctx" "sz * nmemb"] by (simp only: P_def n_def)
  have clip_iff: "(size_ctx ctx < pos ctx + sz * nmemb) \<longleftrightarrow> S - P < n"
    using PS by (auto simp add: word_less_nat_alt sum S_def [symmetric])
  have diff: "unat (size_ctx ctx - pos ctx) = S - P"
    using inv by (simp add: unat_sub S_def P_def)
  show ?thesis
  proof (cases "S - P < n")
    case True
    then have mk: "m = S - P" by (simp add: m n_def S_def P_def)
    have "S - P + (S - P) < 2 ^ 32" using True dstn capS mem by linarith
    then have ksmall: "S - P < 2 ^ 31" by simp
    have sint_k: "sint (size_ctx ctx - pos ctx) = int (S - P)"
      using sint_of_small [of "size_ctx ctx - pos ctx"] ksmall by (simp only: diff)
    have wk: "word_of_nat (S - P) = size_ctx ctx - pos ctx"
      by (simp add: diff [symmetric])
    show ?thesis
    proof (cases "S - P = 0")
      case z: True
      then have "size_ctx ctx - pos ctx = 0" using wk by simp
      then show ?thesis
        using True z clip_iff mk
        by (simp add: state_read_cb_def Let_def P_def [symmetric])
    next
      case nz: False
      have cp: "memcpy (Some p) 0 (Some lb) P (S - P) =
                  Inr (Some (take 0 p @ take (S - P) (drop P lb) @ drop (0 + (S - P)) p))"
        using PS capS True dstn by (intro memcpy_in_bounds) simp_all
      have pos_k: "0 < int (S - P)" using nz by simp
      show ?thesis
        using True clip_iff pos_k cp
        by (simp add: state_read_cb_def Let_def buf P_def [symmetric] sint_k diff mk wk)
    qed
  next
    case False
    then have mn: "m = n" by (simp add: m n_def S_def P_def)
    have wn: "word_of_nat n = sz * nmemb" by (simp add: n_def)
    show ?thesis
    proof (cases "n = 0")
      case True
      then have z: "sz * nmemb = 0" using wn by simp
      show ?thesis
        using False True clip_iff mn z
        by (simp add: state_read_cb_def Let_def memcpy_def buf P_def [symmetric])
    next
      case nz: False
      have cp: "memcpy (Some p) 0 (Some lb) P n =
                  Inr (Some (take 0 p @ take n (drop P lb) @ drop (0 + n) p))"
        using PS capS False dstn by (intro memcpy_in_bounds) simp_all
      show ?thesis
        using False clip_iff cp
        by (simp add: state_read_cb_def Let_def buf P_def [symmetric] n_def [symmetric] mn wn)
    qed
  qed
qed

lemma state_write_cb_inv:
  assumes "state_write_cb p sz nmemb ctx = Inr (r, ctx')" and "pos ctx \<le> size_ctx ctx"
  shows "pos ctx' \<le> size_ctx ctx' \<and> size_ctx ctx' = size_ctx ctx \<and>
         load_buf ctx' = load_buf ctx \<and>
         map_option length (save_buf ctx') = map_option length (save_buf ctx)"
proof (cases "size_ctx ctx < pos ctx + sz * nmemb")
  case True
  then show ?thesis
    using assms memcpy_length [of "save_buf ctx" "unat (pos ctx)" "Some p" 0 "unat (size_ctx ctx - pos ctx)"]
    by (auto simp: state_write_cb_def Let_def split: if_splits sum.splits)
next
  case False
  then show ?thesis
    using assms memcpy_length [of "save_buf ctx" "unat (pos ctx)" "Some p" 0 "unat (sz * nmemb)"]
    by (auto simp: state_write_cb_def Let_def split: if_splits sum.splits)
qed

lemma state_read_cb_inv:
  assumes "state_read_cb p sz nmemb ctx = Inr (p', r, ctx')" and "pos ctx \<le> size_ctx ctx"
  shows "pos ctx' \<le> size_ctx ctx' \<and> size_ctx ctx' = size_ctx ctx \<and>
         load_buf ctx' = load_buf ctx \<and> save_buf ctx' = save_buf ctx"
proof (cases "size_ctx ctx < pos ctx + sz * nmemb")
  case True
  then show ?thesis
    using assms
    by (auto simp: state_read_cb_def Let_def split: if_splits sum.splits option.splits)
next
  case False
  then show ?thesis
    using assms
    by (auto simp: state_read_cb_def Let_def split: if_splits sum.splits option.splits)
qed

section \<open>Short writes\<close>

text \<open>
  C5. A write of \<open>n\<close> bytes to a stream whose cursor leaves \<open>k < n\<close> bytes of capacity
  (\<open>k \<ge> 0\<close>, that is, the cursor is within the capacity) copies exactly the first \<open>k\<close> bytes
  of the source into the backing buffer at the cursor, moves the cursor by \<open>k\<close>, to the
  capacity, and returns \<open>k\<close>. The write is one C can make: the backing buffer holds the
  capacity, the source holds the \<open>n\<close> bytes, and the two objects lie in the 32-bit address space.
\<close>

theorem state_write_cb_short_write:
  assumes inv: "pos ctx \<le> size_ctx ctx"
    and buf: "save_buf ctx = Some sb"
    and cap: "unat (size_ctx ctx) \<le> length sb"
    and n: "unat (sz * nmemb) = n"
    and src: "n \<le> length p"
    and mem: "length p + length sb < 2 ^ 32"
    and k: "unat (size_ctx ctx) - unat (pos ctx) = k"
    and short: "k < n"
  shows "state_write_cb p sz nmemb ctx =
           Inr (word_of_nat k,
                ctx\<lparr>save_buf := Some (take (unat (pos ctx)) sb @ take k p @ drop (unat (pos ctx) + k) sb),
                    pos := pos ctx + word_of_nat k\<rparr>) \<and>
         unat (word_of_nat k :: size_t) = k \<and>
         pos ctx + word_of_nat k = size_ctx ctx"
proof -
  have m: "k = min (unat (sz * nmemb)) (unat (size_ctx ctx) - unat (pos ctx))"
    using n k short by simp
  have src': "unat (sz * nmemb) \<le> length p" using n src by simp
  have a: "state_write_cb p sz nmemb ctx =
           Inr (word_of_nat k,
                ctx\<lparr>save_buf := Some (take (unat (pos ctx)) sb @ take k p @ drop (unat (pos ctx) + k) sb),
                    pos := pos ctx + word_of_nat k\<rparr>)"
    using state_write_cb_fits [OF inv buf cap src' mem m] .
  have diff: "unat (size_ctx ctx - pos ctx) = k"
    using inv k by (simp add: unat_sub)
  have wk: "(word_of_nat k :: size_t) = size_ctx ctx - pos ctx"
    by (simp add: diff [symmetric])
  have b: "unat (word_of_nat k :: size_t) = k" by (simp only: wk diff)
  have c: "pos ctx + word_of_nat k = size_ctx ctx" by (simp only: wk) simp
  from a b c show ?thesis by blast
qed

text \<open>Three bytes written with two bytes left: two are copied and 2 is returned.\<close>

theorem state_write_cb_short_write_witness:
  "state_write_cb [1, 2, 3] 1 3 \<lparr>load_buf = None, save_buf = Some [9, 9, 9, 9], size_ctx = 4, pos = 2\<rparr> =
     Inr (2, \<lparr>load_buf = None, save_buf = Some [9, 9, 1, 2], size_ctx = 4, pos = 4\<rparr>)"
  using state_write_cb_short_write
    [of "\<lparr>load_buf = None, save_buf = Some [9, 9, 9, 9], size_ctx = 4, pos = 2\<rparr>"
        "[9, 9, 9, 9]" 1 3 3 "[1, 2, 3]" 2]
  by simp

section \<open>The cursor and the capacity\<close>

lemma fits_memory_cong:
  assumes "size_ctx a = size_ctx b" "load_buf a = load_buf b"
    "map_option length (save_buf a) = map_option length (save_buf b)"
  shows "fits_memory a op = fits_memory b op"
proof (cases op)
  case (Read p sz nmemb)
  then show ?thesis using assms by (auto split: option.splits)
next
  case (Write p sz nmemb)
  then show ?thesis using assms
    by (cases "save_buf a"; cases "save_buf b") simp_all
next
  case (Skip sz nmemb)
  then show ?thesis by simp
next
  case (Seek offset whence)
  then show ?thesis by simp
qed

lemma stream_step_transfer:
  assumes inv: "cursor_in_bounds ctx" and tr: "is_transfer op" and fits: "fits_memory ctx op"
  shows "\<exists>ctx'. stream_step op ctx = Inr ctx' \<and> cursor_in_bounds ctx' \<and>
           size_ctx ctx' = size_ctx ctx \<and> load_buf ctx' = load_buf ctx \<and>
           map_option length (save_buf ctx') = map_option length (save_buf ctx)"
proof (cases op)
  case (Read p sz nmemb)
  from fits Read obtain lb where lb: "load_buf ctx = Some lb"
    and cap: "unat (size_ctx ctx) \<le> length lb" and dst: "unat (sz * nmemb) \<le> length p"
    and mem: "length p + length lb < 2 ^ 32"
    by (auto split: option.splits)
  from inv have inv': "pos ctx \<le> size_ctx ctx" by (simp add: cursor_in_bounds_def)
  obtain p' r ctx' where res: "state_read_cb p sz nmemb ctx = Inr (p', r, ctx')"
    using state_read_cb_fits [OF inv' lb cap dst mem refl] by blast
  from state_read_cb_inv [OF res inv'] res Read show ?thesis
    by (auto simp add: cursor_in_bounds_def)
next
  case (Write p sz nmemb)
  from fits Write obtain sb where sb: "save_buf ctx = Some sb"
    and cap: "unat (size_ctx ctx) \<le> length sb" and src: "unat (sz * nmemb) \<le> length p"
    and mem: "length p + length sb < 2 ^ 32"
    by (auto split: option.splits)
  from inv have inv': "pos ctx \<le> size_ctx ctx" by (simp add: cursor_in_bounds_def)
  obtain r ctx' where res: "state_write_cb p sz nmemb ctx = Inr (r, ctx')"
    using state_write_cb_fits [OF inv' sb cap src mem refl] by blast
  from state_write_cb_inv [OF res inv'] res Write show ?thesis
    by (auto simp add: cursor_in_bounds_def)
next
  case (Skip sz nmemb)
  then show ?thesis using tr by simp
next
  case (Seek offset whence)
  then show ?thesis using tr by simp
qed

lemma run_ops_transfers:
  assumes "cursor_in_bounds ctx" and "\<forall>op\<in>set ops. is_transfer op \<and> fits_memory ctx op"
  shows "\<exists>ctx'. run_ops ops ctx = Inr ctx' \<and> cursor_in_bounds ctx' \<and> size_ctx ctx' = size_ctx ctx"
  using assms
proof (induction ops arbitrary: ctx)
  case Nil
  then show ?case by simp
next
  case (Cons op ops)
  then have "is_transfer op" "fits_memory ctx op" by simp_all
  with Cons.prems(1) obtain c where step: "stream_step op ctx = Inr c"
    and c: "cursor_in_bounds c" "size_ctx c = size_ctx ctx" "load_buf c = load_buf ctx"
      "map_option length (save_buf c) = map_option length (save_buf ctx)"
    using stream_step_transfer by blast
  have "\<forall>x\<in>set ops. is_transfer x \<and> fits_memory c x"
    using Cons.prems(2) fits_memory_cong [OF c(2) c(3) c(4)] by simp
  with Cons.IH [OF c(1)] obtain ctx' where
    "run_ops ops c = Inr ctx'" "cursor_in_bounds ctx'" "size_ctx ctx' = size_ctx c"
    by blast
  then show ?case using step c(2) by simp
qed

text \<open>
  C1, as amended. For every sequence of well-formed reads and writes applied to a stream whose
  cursor is within its capacity (a cursor of 0 is), no operation faults and after every
  operation the cursor is still within the capacity, which does not change. Skip and seek do
  not clamp: a skip leaves the cursor at \<open>pos + size * nmemb\<close>, and a seek leaves it at the
  offset, at \<open>pos + offset\<close> or at \<open>size + offset\<close>, all modulo \<open>2 ^ 32\<close>, whatever the
  capacity.
\<close>

theorem cursor_in_bounds_transfers:
  assumes "cursor_in_bounds ctx" and "\<forall>op\<in>set ops. is_transfer op \<and> fits_memory ctx op"
  shows "(\<forall>i. \<exists>ctx'. run_ops (take i ops) ctx = Inr ctx' \<and> cursor_in_bounds ctx' \<and>
                     size_ctx ctx' = size_ctx ctx) \<and>
         pos (snd (state_skip_cb sz nmemb ctx)) = pos ctx + sz * nmemb \<and>
         pos (snd (state_seek_cb ctx offset SEEK_SET)) = offset \<and>
         pos (snd (state_seek_cb ctx offset SEEK_CUR)) = pos ctx + offset \<and>
         pos (snd (state_seek_cb ctx offset SEEK_END)) = size_ctx ctx + offset"
proof -
  have a: "\<exists>ctx'. run_ops (take i ops) ctx = Inr ctx' \<and> cursor_in_bounds ctx' \<and>
                     size_ctx ctx' = size_ctx ctx" for i
  proof -
    have "\<forall>op\<in>set (take i ops). is_transfer op \<and> fits_memory ctx op"
      using assms(2) by (meson in_set_takeD)
    with assms(1) show ?thesis by (rule run_ops_transfers)
  qed
  have b: "pos (snd (state_skip_cb sz nmemb ctx)) = pos ctx + sz * nmemb"
    by (simp add: state_skip_cb_def Let_def)
  have c: "pos (snd (state_seek_cb ctx offset SEEK_SET)) = offset"
    by (simp add: state_seek_cb_def)
  have d: "pos (snd (state_seek_cb ctx offset SEEK_CUR)) = pos ctx + offset"
    by (simp add: state_seek_cb_def SEEK_SET_def SEEK_CUR_def)
  have e: "pos (snd (state_seek_cb ctx offset SEEK_END)) = size_ctx ctx + offset"
    by (simp add: state_seek_cb_def SEEK_SET_def SEEK_CUR_def SEEK_END_def)
  from a b c d e show ?thesis by blast
qed

text \<open>A write of three bytes, then a read of two, on the stream of capacity 16.\<close>

theorem cursor_in_bounds_transfers_witness:
  "run_ops (take 2 [Write [1, 2, 3] 1 3, Read [7, 7] 1 2]) stream16 =
     Inr (stream16\<lparr>save_buf := Some ([1, 2, 3] @ replicate 13 0), pos := 5\<rparr>) \<and>
   cursor_in_bounds (stream16\<lparr>save_buf := Some ([1, 2, 3] @ replicate 13 0), pos := 5\<rparr>) \<and>
   pos (snd (state_skip_cb 1 17 stream16)) = 17"
proof -
  have h1: "cursor_in_bounds stream16" by (simp add: cursor_in_bounds_def stream16_def)
  have h2: "\<forall>op\<in>set [Write [1, 2, 3] 1 3, Read [7, 7] 1 2]. is_transfer op \<and> fits_memory stream16 op"
    by (simp add: stream16_def)
  have r: "run_ops (take 2 [Write [1, 2, 3] 1 3, Read [7, 7] 1 2]) stream16 =
     Inr (stream16\<lparr>save_buf := Some ([1, 2, 3] @ replicate 13 0), pos := 5\<rparr>)"
    by (simp add: stream16_def state_write_cb_def state_read_cb_def memcpy_def Let_def)
  from cursor_in_bounds_transfers [OF h1 h2, of 1 17 0] r show ?thesis
    by (simp add: cursor_in_bounds_def stream16_def)
qed

text \<open>
  C1, as stated, fails: on the stream of capacity 16 with the cursor at 0, a skip of 17 bytes
  and an absolute seek to 17 both leave the cursor at 17.
\<close>

theorem cursor_unclamped_counterexample:
  "run_ops [Skip 1 17] stream16 = Inr (stream16\<lparr>pos := 17\<rparr>) \<and>
   run_ops [Seek 17 SEEK_SET] stream16 = Inr (stream16\<lparr>pos := 17\<rparr>) \<and>
   \<not> cursor_in_bounds (stream16\<lparr>pos := 17\<rparr>)"
  by (simp add: state_skip_cb_def state_seek_cb_def cursor_in_bounds_def stream16_def Let_def)

section \<open>Reading after a seek past the end\<close>

text \<open>
  Where the guard \<^verbatim>\<open>(int)bsize <= 0\<close> of \<open>state_read_cb\<close> does its work: with the cursor at
  the end, or past it by at most \<open>2 ^ 31\<close>, a read whose \<open>pos + bsize\<close> does not wrap
  around returns 0, copies nothing and leaves the context as it was.
\<close>

lemma sint_diff_past_end:
  fixes a b :: size_t
  assumes le: "a \<le> b" and d: "unat b - unat a \<le> 2 ^ 31"
  shows "sint (a - b) \<le> 0"
proof -
  have ab: "unat a \<le> unat b" using le by (simp add: word_le_nat_alt)
  have up: "uint a - uint b \<le> 0" using le by (simp add: word_le_def)
  have e1: "int (unat b - unat a) = uint b - uint a"
    by (simp only: uint_nat of_nat_diff [OF ab])
  have e2: "int (2 ^ 31) = (2 ^ 31 :: int)" by simp
  from d have "int (unat b - unat a) \<le> int (2 ^ 31)" by (simp only: of_nat_le_iff)
  then have dd: "uint b - uint a \<le> 2 ^ 31" by (simp only: e1 e2)
  have lo: "- (2 ^ 31) \<le> uint a - uint b" using dd by linarith
  have big: "(0::int) < 2 ^ 31" by simp
  have "sint (a - b) = sint (word_of_int (uint a - uint b) :: size_t)"
    by (simp only: word_sub_wi [symmetric])
  also have "\<dots> = signed_take_bit 31 (uint a - uint b)"
    by (simp only: sint_sbintrunc') simp
  also have "\<dots> = uint a - uint b"
  proof (rule signed_take_bit_int_eq_self)
    show "- (2 ^ 31) \<le> uint a - uint b" by (rule lo)
    show "uint a - uint b < 2 ^ 31" using up big by linarith
  qed
  finally show ?thesis using up by simp
qed

lemma state_read_cb_past_end:
  assumes past: "size_ctx ctx \<le> pos ctx"
    and near: "unat (pos ctx) - unat (size_ctx ctx) \<le> 2 ^ 31"
    and nowrap: "unat (pos ctx) + unat (sz * nmemb) < 2 ^ 32"
  shows "state_read_cb p sz nmemb ctx = Inr (p, 0, ctx) \<and> state_eof_cb ctx = 1"
proof -
  have eof: "state_eof_cb ctx = 1" using past by (simp add: state_eof_cb_def)
  have rd: "state_read_cb p sz nmemb ctx = Inr (p, 0, ctx)"
  proof (cases "size_ctx ctx < pos ctx + sz * nmemb")
    case True
    have "sint (size_ctx ctx - pos ctx) \<le> 0" using past near by (rule sint_diff_past_end)
    with True show ?thesis by (simp add: state_read_cb_def Let_def)
  next
    case False
    have sum: "unat (pos ctx + sz * nmemb) = unat (pos ctx) + unat (sz * nmemb)"
      using nowrap by (rule unat_add_nowrap)
    from False have "unat (pos ctx + sz * nmemb) \<le> unat (size_ctx ctx)"
      by (simp add: word_less_nat_alt)
    moreover have "unat (size_ctx ctx) \<le> unat (pos ctx)" using past by (simp add: word_le_nat_alt)
    ultimately have "unat (sz * nmemb) = 0" using sum by linarith
    then have z: "sz * nmemb = 0" by (simp add: unat_eq_0)
    with False show ?thesis by (simp add: state_read_cb_def Let_def memcpy_def)
  qed
  from rd eof show ?thesis by simp
qed

text \<open>
  C6, at the inputs where the code departs from it. On the stream of capacity 16, two forward
  seeks of 2147483647 leave the cursor at 4294967294, and an absolute seek to -4 leaves it at
  4294967292. In both states \<open>state_eof_cb\<close> answers 1, yet a read of 4 (of 8) bytes is not
  clipped, since \<open>pos + bsize\<close> wraps around to 2 (to 4), which is not above the capacity:
  the copy is made from outside the buffer, where the lemma above has the read return 0.
\<close>

theorem read_after_seek_past_end_overruns:
  "run_ops [Seek 2147483647 SEEK_SET, Seek 2147483647 SEEK_CUR] stream16 =
     Inr (stream16\<lparr>pos := 4294967294\<rparr>) \<and>
   state_eof_cb (stream16\<lparr>pos := 4294967294\<rparr>) = 1 \<and>
   state_read_cb [0, 0, 0, 0] 1 4 (stream16\<lparr>pos := 4294967294\<rparr>) = Inl OutOfBounds \<and>
   snd (state_seek_cb stream16 (- 4) SEEK_SET) = stream16\<lparr>pos := 4294967292\<rparr> \<and>
   state_eof_cb (stream16\<lparr>pos := 4294967292\<rparr>) = 1 \<and>
   state_read_cb [0, 0, 0, 0, 0, 0, 0, 0] 1 8 (stream16\<lparr>pos := 4294967292\<rparr>) = Inl OutOfBounds"
proof -
  have a: "run_ops [Seek 2147483647 SEEK_SET, Seek 2147483647 SEEK_CUR] stream16 =
     Inr (stream16\<lparr>pos := 4294967294\<rparr>)"
    by (simp add: state_seek_cb_def stream16_def SEEK_SET_def SEEK_CUR_def)
  have b: "state_eof_cb (stream16\<lparr>pos := 4294967294\<rparr>) = 1"
    by (simp add: state_eof_cb_def stream16_def)
  have c: "state_read_cb [0, 0, 0, 0] 1 4 (stream16\<lparr>pos := 4294967294\<rparr>) = Inl OutOfBounds"
    by (simp add: state_read_cb_def stream16_def memcpy_def Let_def)
  have d: "snd (state_seek_cb stream16 (- 4) SEEK_SET) = stream16\<lparr>pos := 4294967292\<rparr>"
    by (simp add: state_seek_cb_def stream16_def SEEK_SET_def)
  have e: "state_eof_cb (stream16\<lparr>pos := 4294967292\<rparr>) = 1"
    by (simp add: state_eof_cb_def stream16_def)
  have f: "state_read_cb [0, 0, 0, 0, 0, 0, 0, 0] 1 8 (stream16\<lparr>pos := 4294967292\<rparr>) = Inl OutOfBounds"
    by (simp add: state_read_cb_def stream16_def memcpy_def Let_def)
  from a b c d e f show ?thesis by blast
qed

section \<open>Saving and loading a state\<close>

text \<open>
  C7. \<open>pico_state_load\<close> returns 0 when no game is loaded and when the declared size of the
  blob is 0 (also right after \<open>pico_get_state_load_buffer\<close> has declared the size 0), and
  \<open>pico_state_save\<close> returns 0 when no game is loaded. In each case the state returned is the
  state given: no buffer has changed, and the record of effects has no call of the serializer.
\<close>

theorem state_save_load_preconditions:
  "(game_loaded s = 0 \<longrightarrow> pico_state_load PicoStateFP s = (0, s)) \<and>
   (state_size s = 0 \<longrightarrow> pico_state_load PicoStateFP s = (0, s)) \<and>
   (game_loaded s = 0 \<longrightarrow> pico_state_save malloc PicoStateFP s = (0, s)) \<and>
   pico_state_load PicoStateFP (snd (pico_get_state_load_buffer malloc 0 s)) =
     (0, snd (pico_get_state_load_buffer malloc 0 s))"
proof -
  have a: "game_loaded s = 0 \<longrightarrow> pico_state_load PicoStateFP s = (0, s)"
    by (simp add: pico_state_load_def)
  have b: "state_size s = 0 \<longrightarrow> pico_state_load PicoStateFP s = (0, s)"
    by (simp add: pico_state_load_def)
  have c: "game_loaded s = 0 \<longrightarrow> pico_state_save malloc PicoStateFP s = (0, s)"
    by (simp add: pico_state_save_def)
  have d: "pico_state_load PicoStateFP (snd (pico_get_state_load_buffer malloc 0 s)) =
     (0, snd (pico_get_state_load_buffer malloc 0 s))"
    by (simp add: pico_state_load_def pico_get_state_load_buffer_def Let_def)
  from a b c d show ?thesis by blast
qed

text \<open>With no game loaded, and with a game loaded and a declared size of 0.\<close>

theorem state_save_load_preconditions_witness:
  "pico_state_load serializer_ok initial_state = (0, initial_state) \<and>
   pico_state_save zeroed_malloc serializer_ok initial_state = (0, initial_state) \<and>
   pico_state_load serializer_ok loaded_state = (0, loaded_state)"
  using state_save_load_preconditions [of initial_state serializer_ok zeroed_malloc]
    state_save_load_preconditions [of loaded_state serializer_ok zeroed_malloc]
  by (simp add: initial_state_def loaded_state_def)

text \<open>
  C3, as amended. \<open>pico_state_save\<close> with a game loaded and the state buffer allocated calls
  the serializer on a fresh context over that buffer, of capacity \<open>STATE_MAX_SIZE\<close>. When the
  serializer returns 0, \<open>state_size\<close> becomes the final cursor and the result is 1. When it
  returns anything else, the result is 0 and \<open>state_size\<close> keeps its value, so
  \<open>pico_get_state_size\<close> and \<open>pico_state_exists\<close> answer from the old size. In both cases
  nothing is rolled back: the buffer that \<open>pico_get_state_buffer\<close> hands to the host holds
  what the serializer wrote, also after a failure.
\<close>

theorem pico_state_save_status:
  assumes "game_loaded s \<noteq> 0" and "state_buffer s = Some b"
    and "PicoStateFP \<lparr>load_buf = None, save_buf = Some b, size_ctx = STATE_MAX_SIZE, pos = 0\<rparr> 1
           = (ret, ctx')"
  shows "(ret = 0 \<longrightarrow>
            pico_state_save malloc PicoStateFP s =
              (1, s\<lparr>state_buffer := save_buf ctx', effects := effects s @ [CallPicoStateFP 1],
                     state_size := pos ctx'\<rparr>) \<and>
            pico_get_state_size (snd (pico_state_save malloc PicoStateFP s)) = pos ctx') \<and>
         (ret \<noteq> 0 \<longrightarrow>
            pico_state_save malloc PicoStateFP s =
              (0, s\<lparr>state_buffer := save_buf ctx', effects := effects s @ [CallPicoStateFP 1]\<rparr>) \<and>
            pico_get_state_size (snd (pico_state_save malloc PicoStateFP s)) = pico_get_state_size s \<and>
            pico_state_exists (snd (pico_state_save malloc PicoStateFP s)) =
              (if save_buf ctx' \<noteq> None \<and> state_size s > 0 then 1 else 0)) \<and>
         pico_get_state_buffer (snd (pico_state_save malloc PicoStateFP s)) = save_buf ctx'"
  using assms
  by (simp add: pico_state_save_def pico_get_state_size_def pico_get_state_buffer_def
      pico_state_exists_def Let_def)

text \<open>The three bytes of the example serializers, written at the start of a full-size buffer.\<close>

lemma serializer_writes_three:
  "state_write_cb [1, 2, 3] 1 3
     \<lparr>load_buf = None, save_buf = Some (replicate 2097152 x), size_ctx = STATE_MAX_SIZE, pos = 0\<rparr> =
   Inr (3, \<lparr>load_buf = None, save_buf = Some ([1, 2, 3] @ replicate 2097149 x),
            size_ctx = STATE_MAX_SIZE, pos = 3\<rparr>)"
  by (simp add: state_write_cb_def memcpy_def Let_def STATE_MAX_SIZE_def)

text \<open>A serializer that writes three bytes, reporting 0 and reporting 5.\<close>

theorem pico_state_save_status_witness:
  "pico_state_save zeroed_malloc serializer_ok loaded_state =
     (1, loaded_state\<lparr>state_buffer := Some ([1, 2, 3] @ replicate 2097149 0),
                      effects := [CallPicoStateFP 1], state_size := 3\<rparr>) \<and>
   pico_state_save zeroed_malloc serializer_failing loaded_state =
     (0, loaded_state\<lparr>state_buffer := Some ([1, 2, 3] @ replicate 2097149 0),
                      effects := [CallPicoStateFP 1]\<rparr>) \<and>
   state_size loaded_state = 0"
proof -
  have g: "game_loaded loaded_state \<noteq> 0" by (simp add: loaded_state_def)
  have b: "state_buffer loaded_state = Some (replicate 2097152 0)"
    by (simp add: loaded_state_def STATE_MAX_SIZE_def)
  have ok: "serializer_ok \<lparr>load_buf = None, save_buf = Some (replicate 2097152 0),
                           size_ctx = STATE_MAX_SIZE, pos = 0\<rparr> 1 =
            (0, \<lparr>load_buf = None, save_buf = Some ([1, 2, 3] @ replicate 2097149 0),
                    size_ctx = STATE_MAX_SIZE, pos = 3\<rparr>)"
    by (simp add: serializer_ok_def serializer_writes_three)
  have bad: "serializer_failing \<lparr>load_buf = None, save_buf = Some (replicate 2097152 0),
                           size_ctx = STATE_MAX_SIZE, pos = 0\<rparr> 1 =
            (5, \<lparr>load_buf = None, save_buf = Some ([1, 2, 3] @ replicate 2097149 0),
                    size_ctx = STATE_MAX_SIZE, pos = 3\<rparr>)"
    by (simp add: serializer_failing_def serializer_writes_three)
  have s0: "effects loaded_state = []" "state_size loaded_state = 0"
    by (simp_all add: loaded_state_def initial_state_def)
  from pico_state_save_status [where PicoStateFP = serializer_ok and malloc = zeroed_malloc, OF g b ok]
       pico_state_save_status [where PicoStateFP = serializer_failing and malloc = zeroed_malloc, OF g b bad] s0
  show ?thesis by simp
qed

text \<open>
  C3, as stated, fails in its conclusion: after an earlier save of five bytes, a save whose
  serializer writes three bytes and reports 5 returns 0 and leaves the size at 5 and
  \<open>pico_state_exists\<close> at 1, while the first three bytes of the buffer the host reads are
  those of the failed save.
\<close>

theorem pico_state_save_partial_blob_counterexample:
  "pico_get_state_buffer saved_state = Some (replicate 2097152 7) \<and>
   pico_get_state_size saved_state = 5 \<and>
   fst (pico_state_save zeroed_malloc serializer_failing saved_state) = 0 \<and>
   pico_get_state_buffer (snd (pico_state_save zeroed_malloc serializer_failing saved_state)) =
     Some ([1, 2, 3] @ replicate 2097149 7) \<and>
   pico_get_state_size (snd (pico_state_save zeroed_malloc serializer_failing saved_state)) = 5 \<and>
   pico_state_exists (snd (pico_state_save zeroed_malloc serializer_failing saved_state)) = 1 \<and>
   pico_get_state_buffer (snd (pico_state_save zeroed_malloc serializer_failing saved_state)) \<noteq>
     pico_get_state_buffer saved_state"
proof -
  have b: "state_buffer saved_state = Some (replicate 2097152 7)"
    by (simp add: saved_state_def STATE_MAX_SIZE_def)
  have g: "game_loaded saved_state = 1" "state_size saved_state = 5"
    by (simp_all add: saved_state_def)
  have r: "pico_state_save zeroed_malloc serializer_failing saved_state =
             (0, saved_state\<lparr>state_buffer := Some ([1, 2, 3] @ replicate 2097149 7),
                             effects := effects saved_state @ [CallPicoStateFP 1]\<rparr>)"
    by (simp add: pico_state_save_def Let_def b g serializer_failing_def serializer_writes_three)
  have "hd ([1, 2, 3] @ replicate 2097149 (7 :: byte)) \<noteq> hd (replicate 2097152 (7 :: byte))"
    by simp
  then have ne: "[1, 2, 3] @ replicate 2097149 (7 :: byte) \<noteq> replicate 2097152 7"
    by metis
  show ?thesis
    using ne by (simp add: r b g pico_get_state_buffer_def pico_get_state_size_def pico_state_exists_def)
qed

section \<open>Video: the mode change\<close>

lemma sint_mult_exact:
  fixes a b :: c_int
  assumes "- (2 ^ 31) \<le> sint a * sint b" and "sint a * sint b < 2 ^ 31"
  shows "sint (a * b) = sint a * sint b"
proof -
  have "sint (a * b) = signed_take_bit 31 (sint a * sint b)"
    by (simp add: sint_word_mult)
  also have "\<dots> = sint a * sint b"
    using assms by (rule signed_take_bit_int_eq_self)
  finally show ?thesis .
qed

lemma emu_video_mode_change_fields:
  "vout_width (emu_video_mode_change start_line line_count start_col col_count s) = col_count"
  "vout_height (emu_video_mode_change start_line line_count start_col col_count s) =
     (if sint line_count > 240 then 240 else line_count)"
  "vout_offset (emu_video_mode_change start_line line_count start_col col_count s) =
     (if sint (col_count * start_line * 2) > sint (col_count * 239 * 2)
      then col_count * 239 * 2 else col_count * start_line * 2)"
  "effects (emu_video_mode_change start_line line_count start_col col_count s) =
     effects s @ [CallPicoDrawSetOutBuf (col_count * 2)] @
     (if onVideoModeChange s
      then [HostVideoModeChange col_count (if sint line_count > 240 then 240 else line_count)]
      else []) @ [StoreDirtyPal 1]"
  "vm_current_start_line (emu_video_mode_change start_line line_count start_col col_count s) = start_line"
  "vm_current_line_count (emu_video_mode_change start_line line_count start_col col_count s) = line_count"
  "vm_current_start_col (emu_video_mode_change start_line line_count start_col col_count s) = start_col"
  "vm_current_col_count (emu_video_mode_change start_line line_count start_col col_count s) = col_count"
  "vout_buf (emu_video_mode_change start_line line_count start_col col_count s) = replicate 76800 0"
  by (simp_all add: emu_video_mode_change_def Let_def VOUT_MAX_WIDTH_def VOUT_MAX_HEIGHT_def)

lemma sint_offset_products:
  fixes cc sl :: c_int
  assumes w0: "0 \<le> sint cc" and w1: "sint cc \<le> 320" and l0: "0 \<le> sint sl"
    and fit: "sint cc * sint sl * 2 < 2 ^ 31"
  shows "sint (cc * sl * 2) = sint cc * sint sl * 2"
    and "sint (cc * 239 * 2) = sint cc * 478"
proof -
  have big: "(0::int) < 2 ^ 31" by simp
  have nn: "0 \<le> sint cc * sint sl" using w0 l0 by (rule mult_nonneg_nonneg)
  have a: "sint (cc * sl) = sint cc * sint sl"
  proof (rule sint_mult_exact)
    show "- (2 ^ 31) \<le> sint cc * sint sl" using nn big by linarith
    show "sint cc * sint sl < 2 ^ 31" using nn fit by linarith
  qed
  have two: "sint (2 :: c_int) = 2" by simp
  have "sint (cc * sl * 2) = sint (cc * sl) * sint (2 :: c_int)"
  proof (rule sint_mult_exact)
    show "- (2 ^ 31) \<le> sint (cc * sl) * sint (2 :: c_int)"
      unfolding a two using nn big by linarith
    show "sint (cc * sl) * sint (2 :: c_int) < 2 ^ 31"
      unfolding a two using fit by linarith
  qed
  then show "sint (cc * sl * 2) = sint cc * sint sl * 2" by (simp only: a two)
  have c239: "sint (239 :: c_int) = 239" by simp
  have b: "sint (cc * 239) = sint cc * sint (239 :: c_int)"
  proof (rule sint_mult_exact)
    show "- (2 ^ 31) \<le> sint cc * sint (239 :: c_int)"
      unfolding c239 using w0 by simp
    show "sint cc * sint (239 :: c_int) < 2 ^ 31"
      unfolding c239 using w1 by simp
  qed
  have "sint (cc * 239 * 2) = sint (cc * 239) * sint (2 :: c_int)"
  proof (rule sint_mult_exact)
    show "- (2 ^ 31) \<le> sint (cc * 239) * sint (2 :: c_int)"
      unfolding b c239 two using w0 by simp
    show "sint (cc * 239) * sint (2 :: c_int) < 2 ^ 31"
      unfolding b c239 two using w1 by simp
  qed
  then show "sint (cc * 239 * 2) = sint cc * 478" unfolding b c239 two by simp
qed

text \<open>
  C2, as amended. After every call of \<open>emu_video_mode_change\<close>, for arbitrary mode reports,
  the visible height is at most 240 and the byte offset is at most
  \<open>width * (VOUT_MAX_HEIGHT - 1) * 2\<close>, as \<^verbatim>\<open>int\<close> computes it. The width is the reported
  \<open>col_count\<close>, unclamped, and the offset has no lower clamp. For reports with
  \<open>0 \<le> col_count \<le> 320\<close> and \<open>start_line \<ge> 0\<close> whose product \<open>col_count * start_line * 2\<close>
  fits in an \<^verbatim>\<open>int\<close>, the offset lies in \<open>[0, width * 478]\<close>, hence at or below 152960, the
  byte offset of the last row of the pixel buffer.
\<close>

theorem emu_video_mode_change_clamps:
  "(let s' = emu_video_mode_change start_line line_count start_col col_count s in
      sint (vout_height s') \<le> 240 \<and>
      sint (vout_offset s') \<le> sint (vout_width s' * (VOUT_MAX_HEIGHT - 1) * 2) \<and>
      vout_width s' = col_count \<and>
      (0 \<le> sint col_count \<and> sint col_count \<le> 320 \<and> 0 \<le> sint start_line \<and>
       sint col_count * sint start_line * 2 < 2 ^ 31 \<longrightarrow>
         0 \<le> sint (vout_offset s') \<and>
         sint (vout_offset s') \<le> sint col_count * 478 \<and>
         sint (vout_offset s') \<le> 152960))"
proof -
  let ?s = "emu_video_mode_change start_line line_count start_col col_count s"
  have h: "sint (vout_height ?s) \<le> 240"
    by (simp add: emu_video_mode_change_fields)
  have o: "sint (vout_offset ?s) \<le> sint (vout_width ?s * (VOUT_MAX_HEIGHT - 1) * 2)"
    by (simp add: emu_video_mode_change_fields VOUT_MAX_HEIGHT_def)
  have w: "vout_width ?s = col_count"
    by (simp add: emu_video_mode_change_fields)
  have r: "0 \<le> sint (vout_offset ?s) \<and> sint (vout_offset ?s) \<le> sint col_count * 478 \<and>
           sint (vout_offset ?s) \<le> 152960"
    if w0: "0 \<le> sint col_count" and w1: "sint col_count \<le> 320" and l0: "0 \<le> sint start_line"
      and fit: "sint col_count * sint start_line * 2 < 2 ^ 31"
  proof -
    note p = sint_offset_products [OF w0 w1 l0 fit]
    have nn: "0 \<le> sint col_count * sint start_line" using w0 l0 by (rule mult_nonneg_nonneg)
    show ?thesis
    proof (cases "sint (col_count * start_line * 2) > sint (col_count * 239 * 2)")
      case True
      then have "vout_offset ?s = col_count * 239 * 2"
        by (simp only: emu_video_mode_change_fields if_True)
      then show ?thesis using p(2) w0 w1 by simp
    next
      case False
      then have "vout_offset ?s = col_count * start_line * 2"
        by (simp only: emu_video_mode_change_fields if_False)
      then show ?thesis using False p nn w1 by simp
    qed
  qed
  from h o w r show ?thesis by (simp only: Let_def) blast
qed

text \<open>A malformed report (height 300) and the report of a 320 by 224 mode.\<close>

theorem emu_video_mode_change_clamps_witness:
  "sint (vout_height (emu_video_mode_change (- 1) 300 0 400 initial_state)) \<le> 240 \<and>
   0 \<le> sint (vout_offset (emu_video_mode_change 8 224 0 320 initial_state)) \<and>
   sint (vout_offset (emu_video_mode_change 8 224 0 320 initial_state)) \<le> 152960"
  using emu_video_mode_change_clamps [of "- 1" 300 0 400 initial_state]
    emu_video_mode_change_clamps [of 8 224 0 320 initial_state]
  by (simp add: Let_def)

text \<open>
  C2, as stated, fails: the report \<open>(start_line = -1, line_count = 300, start_col = 0,
  col_count = 400)\<close> leaves the width at 400 and the offset at -800, so that the pointer
  returned for a buffer at address 65536 is 800 bytes below it.
\<close>

theorem emu_video_mode_change_unclamped_counterexample:
  "\<not> sint (vout_width (emu_video_mode_change (- 1) 300 0 400 initial_state)) \<le> 320 \<and>
   \<not> 0 \<le> sint (vout_offset (emu_video_mode_change (- 1) 300 0 400 initial_state)) \<and>
   sint (pico_get_video_buffer 65536 (emu_video_mode_change (- 1) 300 0 400 initial_state)) = 65536 - 800"
  by (simp add: emu_video_mode_change_fields pico_get_video_buffer_def)

text \<open>
  C4, as amended. For every display mode with \<open>0 \<le> start_line \<le> VOUT_MAX_HEIGHT - 1\<close>,
  \<open>line_count \<le> VOUT_MAX_HEIGHT\<close> and \<open>0 \<le> col_count \<le> VOUT_MAX_WIDTH\<close>,
  \<open>emu_video_mode_change\<close> leaves width = \<open>col_count\<close>, height = \<open>line_count\<close> and
  offset = \<open>width * start_line * 2\<close>, with \<open>0 \<le> offset \<le> width * (VOUT_MAX_HEIGHT - 1) * 2\<close>,
  and \<open>pico_get_video_buffer\<close> returns the address of the buffer plus that offset. In
  particular the report \<open>(8, 224, 0, 320)\<close> gives width 320, height 224, offset 5120 and a
  pointer 5120 bytes past the start of the buffer.
\<close>

theorem emu_video_mode_change_offset:
  assumes l0: "0 \<le> sint start_line" and l1: "sint start_line \<le> 239"
    and h1: "sint line_count \<le> 240"
    and w0: "0 \<le> sint col_count" and w1: "sint col_count \<le> 320"
  shows "(let s' = emu_video_mode_change start_line line_count start_col col_count s in
            vout_width s' = col_count \<and> vout_height s' = line_count \<and>
            vout_offset s' = col_count * start_line * 2 \<and>
            sint (vout_offset s') = sint col_count * sint start_line * 2 \<and>
            0 \<le> sint (vout_offset s') \<and>
            sint (vout_offset s') \<le> sint col_count * (240 - 1) * 2 \<and>
            pico_get_video_buffer vout_buf_addr s' = vout_buf_addr + col_count * start_line * 2) \<and>
         (let e = emu_video_mode_change 8 224 0 320 s in
            vout_width e = 320 \<and> vout_height e = 224 \<and> vout_offset e = 5120 \<and>
            pico_get_video_buffer vout_buf_addr e = vout_buf_addr + 5120)"
proof -
  let ?s = "emu_video_mode_change start_line line_count start_col col_count s"
  have nn: "0 \<le> sint col_count * sint start_line" using w0 l0 by (rule mult_nonneg_nonneg)
  have le: "sint col_count * sint start_line \<le> sint col_count * 239"
    using l1 w0 by (rule mult_left_mono)
  have fit: "sint col_count * sint start_line * 2 < 2 ^ 31" using le w1 by simp
  note p = sint_offset_products [OF w0 w1 l0 fit]
  have noclamp: "\<not> sint (col_count * start_line * 2) > sint (col_count * 239 * 2)"
    using p le by simp
  have off: "vout_offset ?s = col_count * start_line * 2"
    using noclamp by (simp only: emu_video_mode_change_fields if_False)
  have wd: "vout_width ?s = col_count" by (simp add: emu_video_mode_change_fields)
  have ht: "vout_height ?s = line_count" using h1 by (simp add: emu_video_mode_change_fields)
  have so: "sint (vout_offset ?s) = sint col_count * sint start_line * 2" by (simp only: off p)
  have lo: "0 \<le> sint (vout_offset ?s)" using so nn by simp
  have hi: "sint (vout_offset ?s) \<le> sint col_count * (240 - 1) * 2" using so le by simp
  have ptr: "pico_get_video_buffer vout_buf_addr ?s = vout_buf_addr + col_count * start_line * 2"
    by (simp only: pico_get_video_buffer_def off)
  have ex: "let e = emu_video_mode_change 8 224 0 320 s in
            vout_width e = 320 \<and> vout_height e = 224 \<and> vout_offset e = 5120 \<and>
            pico_get_video_buffer vout_buf_addr e = vout_buf_addr + 5120"
    by (simp add: emu_video_mode_change_fields pico_get_video_buffer_def)
  from wd ht off so lo hi ptr ex show ?thesis by (simp only: Let_def)
qed

text \<open>The report of a 256 by 224 mode starting at line 16.\<close>

theorem emu_video_mode_change_offset_witness:
  "vout_offset (emu_video_mode_change 16 224 0 256 initial_state) = 8192 \<and>
   vout_width (emu_video_mode_change 16 224 0 256 initial_state) = 256 \<and>
   vout_height (emu_video_mode_change 16 224 0 256 initial_state) = 224 \<and>
   pico_get_video_buffer 65536 (emu_video_mode_change 16 224 0 256 initial_state) = 65536 + 8192"
  using emu_video_mode_change_offset [of 16 224 256 0 initial_state 65536]
  by (simp add: Let_def)

text \<open>
  C4, as stated, fails within its own limits: the report \<open>(240, 1, 0, 320)\<close> has its offset
  clamped to 152960, not \<open>320 * 240 * 2\<close>, and the report \<open>(1, 224, 0, -1)\<close> leaves a
  negative offset.
\<close>

theorem emu_video_mode_change_offset_counterexample:
  "sint (vout_offset (emu_video_mode_change 240 1 0 320 initial_state)) = 152960 \<and>
   sint (vout_offset (emu_video_mode_change 240 1 0 320 initial_state)) \<noteq>
     sint (320 :: c_int) * sint (240 :: c_int) * 2 \<and>
   \<not> 0 \<le> sint (vout_offset (emu_video_mode_change 1 224 0 (- 1) initial_state))"
  by (simp add: emu_video_mode_change_fields)

text \<open>The state a mode change returns, every field of it.\<close>

lemma emu_video_mode_change_result:
  "emu_video_mode_change start_line line_count start_col col_count s =
     s\<lparr>vout_buf := replicate 76800 0,
        vout_width := col_count,
        vout_height := (if sint line_count > 240 then 240 else line_count),
        vout_offset := (if sint (col_count * start_line * 2) > sint (col_count * (240 - 1) * 2)
                        then col_count * (240 - 1) * 2 else col_count * start_line * 2),
        vm_current_start_line := start_line,
        vm_current_line_count := line_count,
        vm_current_start_col := start_col,
        vm_current_col_count := col_count,
        effects := effects s @
          CallPicoDrawSetOutBuf (col_count * 2) #
          (if onVideoModeChange s
           then [HostVideoModeChange col_count (if sint line_count > 240 then 240 else line_count)]
           else []) @ [StoreDirtyPal 1]\<rparr>"
  by (simp add: emu_video_mode_change_def Let_def VOUT_MAX_WIDTH_def VOUT_MAX_HEIGHT_def)

text \<open>
  C8, as amended. \<open>emu_video_mode_change\<close> returns the state in which the four fields are
  cached, the width is \<open>col_count\<close>, the height is \<open>line_count\<close> clamped to 240, the pixel
  buffer is zeroed and the offset is \<open>width * start_line * 2\<close>, replaced by
  \<open>width * (240 - 1) * 2\<close> when it is above that (both as \<^verbatim>\<open>int\<close> computes them); no other
  variable changes. Its actions on the core and on the host come in this order: it points the
  core at the buffer with pitch \<open>width * 2\<close>, then notifies the host of the width and the
  clamped height when a handler is registered, and last marks the palette dirty. So the
  notification precedes the palette mark. Nothing is said of the order of the assignments to
  the file's own variables.
\<close>

theorem emu_video_mode_change_order:
  "(let h = (if sint line_count > 240 then 240 else line_count);
        off = (if sint (col_count * start_line * 2) > sint (col_count * (240 - 1) * 2)
               then col_count * (240 - 1) * 2 else col_count * start_line * 2);
        acts = CallPicoDrawSetOutBuf (col_count * 2) #
               (if onVideoModeChange s then [HostVideoModeChange col_count h] else []) @
               [StoreDirtyPal 1];
        s' = emu_video_mode_change start_line line_count start_col col_count s
    in s' = s\<lparr>vout_buf := replicate 76800 0, vout_width := col_count, vout_height := h,
                vout_offset := off,
                vm_current_start_line := start_line, vm_current_line_count := line_count,
                vm_current_start_col := start_col, vm_current_col_count := col_count,
                effects := effects s @ acts\<rparr> \<and>
       new_effects s s' = acts \<and>
       (onVideoModeChange s \<longrightarrow>
          occurs_before (CallPicoDrawSetOutBuf (col_count * 2)) (HostVideoModeChange col_count h)
            (new_effects s s') \<and>
          occurs_before (HostVideoModeChange col_count h) (StoreDirtyPal 1) (new_effects s s') \<and>
          \<not> occurs_before (StoreDirtyPal 1) (HostVideoModeChange col_count h) (new_effects s s')))"
  by (simp add: Let_def new_effects_def emu_video_mode_change_result)

text \<open>A report of 300 lines starting at line 8, with a handler registered.\<close>

theorem emu_video_mode_change_order_witness:
  "emu_video_mode_change 8 300 0 320 (initial_state\<lparr>onVideoModeChange := True\<rparr>) =
     initial_state\<lparr>onVideoModeChange := True, vout_buf := replicate 76800 0, vout_width := 320,
                   vout_height := 240, vout_offset := 5120,
                   vm_current_start_line := 8, vm_current_line_count := 300,
                   vm_current_start_col := 0, vm_current_col_count := 320,
                   effects := [CallPicoDrawSetOutBuf 640, HostVideoModeChange 320 240,
                               StoreDirtyPal 1]\<rparr> \<and>
   occurs_before (HostVideoModeChange 320 240) (StoreDirtyPal 1)
     (new_effects (initial_state\<lparr>onVideoModeChange := True\<rparr>)
        (emu_video_mode_change 8 300 0 320 (initial_state\<lparr>onVideoModeChange := True\<rparr>)))"
proof -
  have e: "effects (initial_state\<lparr>onVideoModeChange := True\<rparr>) = []"
    by (simp add: initial_state_def)
  from emu_video_mode_change_order [of 300 320 8 "initial_state\<lparr>onVideoModeChange := True\<rparr>" 0] e
  show ?thesis by (simp add: Let_def new_effects_def)
qed

text \<open>
  C8, as stated, fails: for the report \<open>(8, 224, 0, 320)\<close> with a handler registered, the
  palette mark is the last effect and does not precede the notification.
\<close>

theorem emu_video_mode_change_order_counterexample:
  "new_effects (initial_state\<lparr>onVideoModeChange := True\<rparr>)
     (emu_video_mode_change 8 224 0 320 (initial_state\<lparr>onVideoModeChange := True\<rparr>)) =
     [CallPicoDrawSetOutBuf 640, HostVideoModeChange 320 224, StoreDirtyPal 1] \<and>
   \<not> occurs_before (StoreDirtyPal 1) (HostVideoModeChange 320 224)
     (new_effects (initial_state\<lparr>onVideoModeChange := True\<rparr>)
        (emu_video_mode_change 8 224 0 320 (initial_state\<lparr>onVideoModeChange := True\<rparr>)))"
  by (simp add: new_effects_def emu_video_mode_change_fields)

section \<open>Audio: the flush\<close>

lemma sdiv4_nonneg:
  fixes k :: int
  assumes "0 \<le> k"
  shows "k sdiv 4 = k div 4"
  using assms by (simp add: signed_divide_int_def sgn_if)

lemma sint_samples:
  fixes len :: c_int
  assumes "0 \<le> sint len"
  shows "sint (word_of_int (sint len sdiv 4) :: c_int) = sint len div 4"
proof -
  have up: "sint len < 2 ^ 31" using sint_lt [of len] by simp
  have d0: "0 \<le> sint len div 4" using assms by simp
  have d1: "sint len div 4 \<le> sint len" using assms by simp
  have big: "(0::int) < 2 ^ 31" by simp
  have "sint (word_of_int (sint len div 4) :: c_int) = signed_take_bit 31 (sint len div 4)"
    by (simp add: sint_sbintrunc')
  also have "\<dots> = sint len div 4"
  proof (rule signed_take_bit_int_eq_self)
    show "- (2 ^ 31) \<le> sint len div 4" using d0 big by linarith
    show "sint len div 4 < 2 ^ 31" using d1 up by linarith
  qed
  finally show ?thesis by (simp only: sdiv4_nonneg [OF assms])
qed

text \<open>
  C9, as amended. On an audio flush of \<open>len \<ge> 0\<close> bytes while the host has an audio handler
  registered, \<open>snd_write\<close> delivers one packet of exactly \<open>2 * (len div 4)\<close> signed 16-bit
  values, read from the heap at \<^verbatim>\<open>PicoIn.sndOut\<close>; the packet depends on nothing kept
  from earlier calls, and nothing else changes. A flush of 176 bytes delivers 88 values, that
  is 44 stereo pairs. With no handler registered nothing is delivered and nothing changes.
\<close>

theorem snd_write_packet:
  "(onAudioWrite s \<and> 0 \<le> sint len \<longrightarrow>
      snd_write HEAP16 ptr len s =
        Inr (s\<lparr>effects := effects s @
               [HostAudioWrite (map (\<lambda>i. heap16_read HEAP16 (sint (signed_drop_bit 1 ptr) + int i))
                                    [0 ..< 2 * nat (sint len div 4)])]\<rparr>) \<and>
      length (map (\<lambda>i. heap16_read HEAP16 (sint (signed_drop_bit 1 ptr) + int i))
                  [0 ..< 2 * nat (sint len div 4)]) = 2 * nat (sint len div 4)) \<and>
   (onAudioWrite s \<longrightarrow>
      snd_write HEAP16 ptr 176 s =
        Inr (s\<lparr>effects := effects s @
               [HostAudioWrite (map (\<lambda>i. heap16_read HEAP16 (sint (signed_drop_bit 1 ptr) + int i))
                                    [0 ..< 2 * 44])]\<rparr>)) \<and>
   (\<not> onAudioWrite s \<longrightarrow> snd_write HEAP16 ptr len s = Inr s)"
proof -
  have a: "snd_write HEAP16 ptr len s =
        Inr (s\<lparr>effects := effects s @
               [HostAudioWrite (map (\<lambda>i. heap16_read HEAP16 (sint (signed_drop_bit 1 ptr) + int i))
                                    [0 ..< 2 * nat (sint len div 4)])]\<rparr>)"
    if reg: "onAudioWrite s" and nn: "0 \<le> sint len" for len
  proof -
    have d0: "0 \<le> sint len div 4" using nn by simp
    have n2: "nat (sint len div 4 * 2) = 2 * nat (sint len div 4)" using d0 by (simp add: nat_mult_distrib)
    have pos: "\<not> sint len div 4 * 2 < 0" using d0 by simp
    show ?thesis
      using reg pos
      by (simp only: snd_write_def Let_def sint_samples [OF nn] n2 if_True if_False)
  qed
  have b: "snd_write HEAP16 ptr 176 s =
        Inr (s\<lparr>effects := effects s @
               [HostAudioWrite (map (\<lambda>i. heap16_read HEAP16 (sint (signed_drop_bit 1 ptr) + int i))
                                    [0 ..< 2 * 44])]\<rparr>)"
    if reg: "onAudioWrite s"
  proof -
    have "(0::int) \<le> sint (176 :: c_int)" by simp
    from a [OF reg this] show ?thesis by simp
  qed
  have c: "\<not> onAudioWrite s \<longrightarrow> snd_write HEAP16 ptr len s = Inr s"
    by (simp add: snd_write_def Let_def)
  from a b c show ?thesis by simp
qed

text \<open>A flush of 8 bytes from a heap of six samples, with and without a handler.\<close>

theorem snd_write_packet_witness:
  "snd_write [1, 2, 3, 4, 5, 6] 4 8 (initial_state\<lparr>onAudioWrite := True\<rparr>) =
     Inr (initial_state\<lparr>onAudioWrite := True, effects := [HostAudioWrite [3, 4, 5, 6]]\<rparr>) \<and>
   snd_write [1, 2, 3, 4, 5, 6] 4 8 initial_state = Inr initial_state"
proof -
  have r: "onAudioWrite (initial_state\<lparr>onAudioWrite := True\<rparr>)" by simp
  have u: "\<not> onAudioWrite initial_state" by (simp add: initial_state_def)
  have e: "effects (initial_state\<lparr>onAudioWrite := True\<rparr>) = []" by (simp add: initial_state_def)
  have n: "(0::int) \<le> sint (8 :: c_int)" by simp
  have m: "map (\<lambda>i. heap16_read [1, 2, 3, 4, 5, 6] (sint (signed_drop_bit 1 (4 :: c_int)) + int i))
             [0 ..< 2 * nat (sint (8 :: c_int) div 4)] = [3, 4, 5, 6]"
    by (simp add: heap16_read_def upt_rec)
  from snd_write_packet [of "initial_state\<lparr>onAudioWrite := True\<rparr>" 8 "[1, 2, 3, 4, 5, 6]" 4]
    snd_write_packet [of initial_state 8 "[1, 2, 3, 4, 5, 6]" 4] r u e n m
  show ?thesis by simp
qed

text \<open>
  C9, as stated, fails: with no handler registered a flush of 176 bytes delivers nothing, and
  with a handler a flush of -8 bytes ends in a \<^verbatim>\<open>RangeError\<close>.
\<close>

theorem snd_write_dropped_counterexample:
  "snd_write [] 0 176 initial_state = Inr initial_state \<and>
   effects initial_state = [] \<and>
   snd_write [] 0 (- 8) (initial_state\<lparr>onAudioWrite := True\<rparr>) = Inl RangeError"
  by (simp add: snd_write_def Let_def initial_state_def signed_divide_int_def)

section \<open>Input: the controller entries\<close>

lemma pad_in_range_iff: "(sint (pad :: c_int) \<ge> 0 \<and> sint pad < 2) \<longleftrightarrow> (pad = 0 \<or> pad = 1)"
proof
  assume "sint pad \<ge> 0 \<and> sint pad < 2"
  then have "sint pad = 0 \<or> sint pad = 1" by linarith
  then have "word_of_int (sint pad) = (0::c_int) \<or> word_of_int (sint pad) = (1::c_int)"
    by (metis word_of_int_0 word_of_int_1)
  then show "pad = 0 \<or> pad = 1" by simp
next
  assume "pad = 0 \<or> pad = 1"
  then show "sint pad \<ge> 0 \<and> sint pad < 2" by auto
qed

text \<open>
  C10. For a pad index other than 0 and 1, and any buttons value, \<open>pico_set_input\<close> returns
  the state it was given. For pad 0 and pad 1 (the array \<open>input_state\<close> has two entries) the
  entry of that pad becomes the bitmask and the other entry keeps its value. In every case no
  other variable of the file changes.
\<close>

theorem pico_set_input_frame:
  "(pad \<noteq> 0 \<and> pad \<noteq> 1 \<longrightarrow> pico_set_input pad buttons s = s) \<and>
   (length (input_state s) = 2 \<longrightarrow>
      input_state (pico_set_input 0 buttons s) = [buttons, input_state s ! 1] \<and>
      input_state (pico_set_input 1 buttons s) = [input_state s ! 0, buttons]) \<and>
   pico_set_input pad buttons s = s\<lparr>input_state := input_state (pico_set_input pad buttons s)\<rparr>"
proof -
  have a: "pad \<noteq> 0 \<and> pad \<noteq> 1 \<longrightarrow> pico_set_input pad buttons s = s"
    using pad_in_range_iff [of pad] by (simp add: pico_set_input_def)
  have b: "length (input_state s) = 2 \<longrightarrow>
      input_state (pico_set_input 0 buttons s) = [buttons, input_state s ! 1] \<and>
      input_state (pico_set_input 1 buttons s) = [input_state s ! 0, buttons]"
  proof
    assume "length (input_state s) = 2"
    then obtain x y where xy: "input_state s = [x, y]"
      by (auto simp: length_Suc_conv numeral_2_eq_2)
    show "input_state (pico_set_input 0 buttons s) = [buttons, input_state s ! 1] \<and>
      input_state (pico_set_input 1 buttons s) = [input_state s ! 0, buttons]"
      by (simp add: pico_set_input_def xy)
  qed
  have c: "pico_set_input pad buttons s = s\<lparr>input_state := input_state (pico_set_input pad buttons s)\<rparr>"
    by (simp add: pico_set_input_def)
  from a b c show ?thesis by blast
qed

theorem pico_set_input_frame_witness:
  "pico_set_input 2 5 initial_state = initial_state \<and>
   input_state (pico_set_input 0 5 initial_state) = [5, 0] \<and>
   input_state (pico_set_input 1 5 initial_state) = [0, 5]"
  using pico_set_input_frame [of 2 5 initial_state] pico_set_input_frame [of 0 5 initial_state]
  by (simp add: initial_state_def)

end
